theory Spec2Isabelle
  imports Main "HOL-Library.Word"
begin

section \<open>The lexing engine's data, as preprocessor.cpp uses it\<close>

text \<open>
  The embedding follows \<^verbatim>\<open>src/cmonster/core/preprocessor.cpp\<close>. That file is a layer over
  the clang lexing engine. The engine's plain data (tokens, macro descriptors, the macro
  table, the list of registered pragma handlers) is modelled by records and maps whose
  fields are named after the accessors the source calls. What the engine computes
  (lexing, macro expansion, source locations, the comparison of two macro descriptors)
  is never defined here: each function of the source takes those operations as
  arguments, and every theorem holds for all of them.
\<close>

subsection \<open>Tokens\<close>

text \<open>\<^verbatim>\<open>clang::tok::TokenKind\<close>: the kinds the source names, and all the others.\<close>

datatype TokenKind =
    tok_unknown | tok_eof | tok_eod | tok_identifier | tok_raw_identifier
  | tok_l_paren | tok_r_paren | tok_string_literal | tok_other nat

text \<open>\<^verbatim>\<open>clang::Token::TokenFlags\<close>; a token holds a set of them.\<close>

datatype TokenFlags = StartOfLine | LeadingSpace | DisableExpand | NeedsCleaning

text \<open>
  \<^verbatim>\<open>clang::SourceLocation\<close> is an opaque number; the default-constructed
  \<^verbatim>\<open>SourceLocation()\<close> is 0, the invalid location.
\<close>

type_synonym SourceLocation = nat

type_synonym FileID = nat

text \<open>An interned identifier (\<^verbatim>\<open>clang::IdentifierInfo*\<close>) is identified with its name.\<close>

type_synonym Identifier = string

text \<open>
  Modelled from the spec: \<^verbatim>\<open>cmonster::core::Token\<close> (token.hpp, not among the sources) is
  a lexical token with its kind, its raw spelling, its location and its flags. It wraps a
  \<^verbatim>\<open>clang::Token\<close> and the preprocessor that resolves its text. Here the two are one
  record: the fields of the clang token are named after its accessors (\<^verbatim>\<open>Length\<close> is what
  \<^verbatim>\<open>getLength()\<close> returns, an unsigned int), the text is the field \<^verbatim>\<open>Spelling\<close>, which is
  what \<^verbatim>\<open>operator<<\<close> writes, and \<^verbatim>\<open>getToken\<close> and the wrapping constructor are the
  identity.
\<close>

record Token =
  Loc :: SourceLocation
  Length :: "32 word"
  Kind :: TokenKind
  Flags :: "TokenFlags set"
  IdentifierInfo :: "Identifier option"
  Spelling :: string

definition startToken :: Token where
  "startToken = \<lparr>Loc = 0, Length = 0, Kind = tok_unknown, Flags = {},
     IdentifierInfo = None, Spelling = []\<rparr>"

definition setFlag :: "TokenFlags \<Rightarrow> Token \<Rightarrow> Token" where
  "setFlag f t = t\<lparr>Flags := insert f (Flags t)\<rparr>"

definition isAnyIdentifier :: "Token \<Rightarrow> bool" where
  "isAnyIdentifier t = (Kind t = tok_identifier \<or> Kind t = tok_raw_identifier)"

definition getIdentifierInfo :: "string \<Rightarrow> Identifier" where
  "getIdentifierInfo name = name"

subsection \<open>Macro descriptors\<close>

text \<open>
  \<^verbatim>\<open>clang::MacroInfo\<close>: \<^verbatim>\<open>Location\<close> is the definition location given to
  \<^verbatim>\<open>AllocateMacroInfo\<close> (the place of the macro's name), \<^verbatim>\<open>EndLocation\<close> is what
  \<^verbatim>\<open>setDefinitionEndLoc\<close> records and is default-constructed before.
\<close>

record MacroInfo =
  Location :: SourceLocation
  EndLocation :: SourceLocation
  ArgumentList :: "Identifier list"
  ReplacementTokens :: "Token list"
  IsFunctionLike :: bool
  IsC99Varargs :: bool

definition AllocateMacroInfo :: "SourceLocation \<Rightarrow> MacroInfo" where
  "AllocateMacroInfo L = \<lparr>Location = L, EndLocation = 0, ArgumentList = [],
     ReplacementTokens = [], IsFunctionLike = False, IsC99Varargs = False\<rparr>"

definition AddTokenToBody :: "Token \<Rightarrow> MacroInfo \<Rightarrow> MacroInfo" where
  "AddTokenToBody t m = m\<lparr>ReplacementTokens := ReplacementTokens m @ [t]\<rparr>"

subsection \<open>Pragma handlers and the preprocessor state\<close>

text \<open>
  Modelled from the spec: \<^verbatim>\<open>cmonster::core::FunctionMacro\<close> (function_macro.hpp, not among
  the sources) is a callback from the argument tokens to the replacement tokens, with no
  effect on the preprocessor but its result.
\<close>

type_synonym FunctionMacro = "Token list \<Rightarrow> Token list"

text \<open>
  The two handler classes of the source. A \<^verbatim>\<open>DynamicPragmaHandler\<close> holds its name and its
  function; the token saver it refers to is the one of the state.
\<close>

datatype PragmaHandler =
    TokenSaverPragmaHandler
  | DynamicPragmaHandler string FunctionMacro

text \<open>
  \<^verbatim>\<open>clang::Preprocessor\<close>: the predefines, the macro table, the handlers in the order of
  their registration (each with the namespace it was added under, if any), the scratch
  buffer's next free location, the token streams entered and not yet read (the newest
  first: the engine reads the top one before anything below it), and the rest of the
  engine's state, which stays opaque.
\<close>

record 'e Preprocessor =
  Predefines :: string
  Macros :: "Identifier \<rightharpoonup> MacroInfo"
  PragmaHandlers :: "(string option \<times> PragmaHandler) list"
  ScratchBuf :: SourceLocation
  TokenStreams :: "Token list list"
  Engine :: 'e

text \<open>\<^verbatim>\<open>FileChangePPCallback\<close>.\<close>

record FileChangePPCallback =
  depth :: "32 word"
  location :: SourceLocation

datatype FileChangeReason = EnterFile | ExitFile | SystemHeaderPragma | RenameFile

definition FileChanged ::
  "SourceLocation \<Rightarrow> FileChangeReason \<Rightarrow> FileChangePPCallback \<Rightarrow> FileChangePPCallback" where
  "FileChanged L Reason c =
     (case Reason of
        EnterFile \<Rightarrow> c\<lparr>location := L, depth := depth c + 1\<rparr>
      | ExitFile \<Rightarrow> c\<lparr>location := L, depth := depth c - 1\<rparr>
      | _ \<Rightarrow> c\<lparr>location := L\<rparr>)"

text \<open>
  \<^verbatim>\<open>PreprocessorImpl\<close>: the compiler instance's source manager (opaque) and current
  preprocessor, the tokens saved by the token saver, and the file change callback.
\<close>

record ('e, 'm) PreprocessorImpl =
  SourceMgr :: 'm
  PP :: "'e Preprocessor"
  token_saver :: "Token list"
  file_change_callback :: FileChangePPCallback

definition getMacroInfo :: "Identifier \<Rightarrow> ('e, 'm) PreprocessorImpl \<Rightarrow> MacroInfo option" where
  "getMacroInfo II s = Macros (PP s) II"

definition setMacroInfo ::
  "Identifier \<Rightarrow> MacroInfo \<Rightarrow> ('e, 'm) PreprocessorImpl \<Rightarrow> ('e, 'm) PreprocessorImpl" where
  "setMacroInfo II m s = s\<lparr>PP := (PP s)\<lparr>Macros := (Macros (PP s))(II \<mapsto> m)\<rparr>\<rparr>"

definition AddPragmaHandler ::
  "string option \<Rightarrow> PragmaHandler \<Rightarrow> ('e, 'm) PreprocessorImpl \<Rightarrow> ('e, 'm) PreprocessorImpl" where
  "AddPragmaHandler ns h s =
     s\<lparr>PP := (PP s)\<lparr>PragmaHandlers := PragmaHandlers (PP s) @ [(ns, h)]\<rparr>\<rparr>"

definition EnterTokenStream ::
  "Token list \<Rightarrow> ('e, 'm) PreprocessorImpl \<Rightarrow> ('e, 'm) PreprocessorImpl" where
  "EnterTokenStream toks s =
     s\<lparr>PP := (PP s)\<lparr>TokenStreams := toks # TokenStreams (PP s)\<rparr>\<rparr>"

text \<open>
  \<^verbatim>\<open>Preprocessor::CreateString\<close>: the text goes to the scratch buffer, and the token gets
  its length and its location there.
\<close>

definition CreateString ::
  "string \<Rightarrow> nat \<Rightarrow> Token \<Rightarrow> ('e, 'm) PreprocessorImpl
     \<Rightarrow> Token \<times> ('e, 'm) PreprocessorImpl" where
  "CreateString buf len t s =
     (t\<lparr>Loc := ScratchBuf (PP s), Length := of_nat len, Spelling := take len buf\<rparr>,
      s\<lparr>PP := (PP s)\<lparr>ScratchBuf := ScratchBuf (PP s) + len + 1\<rparr>\<rparr>)"

subsection \<open>The engine's operations\<close>

text \<open>
  What the source calls and does not define. \<^verbatim>\<open>Lex\<close> returns the next token with macros
  expanded and directives handled, \<^verbatim>\<open>LexUnexpandedToken\<close> the next token with macro
  expansion disabled, \<^verbatim>\<open>LookAhead n\<close> the token \<^verbatim>\<open>n\<close> places ahead without consuming
  any. \<^verbatim>\<open>createPreprocessor\<close> stands for \<^verbatim>\<open>resetAndLeakPreprocessor\<close> followed by
  \<^verbatim>\<open>createPreprocessor\<close>: the compiler instance gets a new current preprocessor and
  keeps its source manager. \<^verbatim>\<open>getPresumedLoc\<close> returns the line and the column of a
  location, or nothing when the presumed location is not valid.
\<close>

record ('e, 'm) ClangAPI =
  Lex :: "('e, 'm) PreprocessorImpl \<Rightarrow> Token \<times> ('e, 'm) PreprocessorImpl"
  LexUnexpandedToken :: "('e, 'm) PreprocessorImpl \<Rightarrow> Token \<times> ('e, 'm) PreprocessorImpl"
  LookAhead :: "nat \<Rightarrow> ('e, 'm) PreprocessorImpl \<Rightarrow> Token"
  EnterMainSourceFile :: "('e, 'm) PreprocessorImpl \<Rightarrow> ('e, 'm) PreprocessorImpl"
  EnterSourceFile :: "FileID \<Rightarrow> ('e, 'm) PreprocessorImpl \<Rightarrow> ('e, 'm) PreprocessorImpl"
  createPreprocessor :: "('e, 'm) PreprocessorImpl \<Rightarrow> ('e, 'm) PreprocessorImpl"
  createFileIDForMemBuffer ::
    "string \<Rightarrow> ('e, 'm) PreprocessorImpl \<Rightarrow> FileID \<times> ('e, 'm) PreprocessorImpl"
  getFileID :: "'m \<Rightarrow> SourceLocation \<Rightarrow> FileID"
  getPresumedLoc :: "'m \<Rightarrow> SourceLocation \<Rightarrow> (32 word \<times> 32 word) option"
  isIdenticalTo :: "MacroInfo \<Rightarrow> MacroInfo \<Rightarrow> bool"

section \<open>The macro table builder\<close>

text \<open>
  Lines 246 to 282 of \<^verbatim>\<open>add_macro_definition\<close>: the descriptor built from the body
  tokens and the parameter names. The argument vector has one slot for each name; the
  first \<^verbatim>\<open>n_args\<close> slots take the names, and for a variadic macro the last slot takes
  \<^verbatim>\<open>__VA_ARGS__\<close>.
\<close>

definition new_macro :: "Token list \<Rightarrow> string list \<Rightarrow> bool \<Rightarrow> MacroInfo" where
  "new_macro value_tokens args is_function =
     (let macro = AllocateMacroInfo 0;
          macro =
            (if is_function then
               (let macro = macro\<lparr>IsFunctionLike := True\<rparr> in
                if args \<noteq> [] then
                  (let variadic = (last args = ''...'');
                       n_args = (if variadic then length args - 1 else length args);
                       macro = (if variadic then macro\<lparr>IsC99Varargs := True\<rparr> else macro);
                       arg_identifiers =
                         (if IsC99Varargs macro
                          then map getIdentifierInfo (take n_args args)
                                 @ [getIdentifierInfo ''__VA_ARGS__'']
                          else map getIdentifierInfo (take n_args args))
                   in macro\<lparr>ArgumentList := arg_identifiers\<rparr>)
                else macro)
             else macro)
      in if value_tokens \<noteq> [] then
           (fold AddTokenToBody value_tokens macro)\<lparr>EndLocation := Loc (last value_tokens)\<rparr>
         else macro)"

text \<open>\<^verbatim>\<open>PreprocessorImpl::add_macro_definition\<close>.\<close>

definition add_macro_definition ::
  "('e, 'm) ClangAPI \<Rightarrow> string \<Rightarrow> Token list \<Rightarrow> string list \<Rightarrow> bool
     \<Rightarrow> ('e, 'm) PreprocessorImpl \<Rightarrow> bool \<times> ('e, 'm) PreprocessorImpl" where
  "add_macro_definition C name value_tokens args is_function s =
     (let macro_identifier = getIdentifierInfo name;
          macro = new_macro value_tokens args is_function
      in case getMacroInfo macro_identifier s of
           Some existing_macro \<Rightarrow> (isIdenticalTo C macro existing_macro, s)
         | None \<Rightarrow> (True, setMacroInfo macro_identifier macro s))"

section \<open>The dynamic macro bridge\<close>

text \<open>The exceptions the source throws, by the place that throws them.\<close>

datatype error =
    NoMatchingParen
      \<comment> \<open>\<^verbatim>\<open>invalid_argument\<close>: the name ends with a closing parenthesis and has no
          opening one\<close>
  | UnexpectedComma string nat
      \<comment> \<open>\<^verbatim>\<open>invalid_argument\<close>: a character other than a comma was expected in the
          name, at the column\<close>
  | MacroAlreadyDefined
      \<comment> \<open>\<^verbatim>\<open>runtime_error\<close>: macro already defined\<close>

text \<open>\<^verbatim>\<open>PreprocessorImpl::add_pragma\<close>; an unset function pointer is \<^verbatim>\<open>None\<close>.\<close>

definition add_pragma ::
  "string \<Rightarrow> FunctionMacro option \<Rightarrow> bool \<Rightarrow> ('e, 'm) PreprocessorImpl
     \<Rightarrow> bool \<times> ('e, 'm) PreprocessorImpl" where
  "add_pragma name function with_namespace s =
     (case function of
        Some f \<Rightarrow>
          (if with_namespace
           then (True, AddPragmaHandler (Some ''cmonster'') (DynamicPragmaHandler name f) s)
           else (True, AddPragmaHandler None (DynamicPragmaHandler name f) s))
      | None \<Rightarrow> (False, s))"

text \<open>
  The body that \<^verbatim>\<open>add_macro_function\<close> builds, token by token (lines 318 to 393): every
  block resets the token, sets its kind and identifier, creates its string and adds it
  to the body.
\<close>

definition dynamic_macro ::
  "string \<Rightarrow> ('e, 'm) PreprocessorImpl \<Rightarrow> MacroInfo \<times> ('e, 'm) PreprocessorImpl" where
  "dynamic_macro name s0 =
     (let (t, s1) = CreateString ''_CMONSTER_PRAGMA'' 16
            (startToken\<lparr>Kind := tok_identifier,
               IdentifierInfo := Some (getIdentifierInfo ''_CMONSTER_PRAGMA'')\<rparr>) s0;
          macro = AllocateMacroInfo (Loc t);
          macro = macro\<lparr>IsFunctionLike := True\<rparr>;
          macro = macro\<lparr>IsC99Varargs := True\<rparr>;
          macro = macro\<lparr>ArgumentList := [getIdentifierInfo ''__VA_ARGS__'']\<rparr>;
          macro = AddTokenToBody t macro;
          (t, s2) = CreateString ''('' 1 (startToken\<lparr>Kind := tok_l_paren\<rparr>) s1;
          macro = AddTokenToBody t macro;
          (t, s3) = CreateString ''cmonster_pragma'' 15
            (startToken\<lparr>Kind := tok_identifier,
               IdentifierInfo := Some (getIdentifierInfo ''cmonster_pragma'')\<rparr>) s2;
          macro = AddTokenToBody t macro;
          (t, s4) = CreateString ''__VA_ARGS__'' 11
            (startToken\<lparr>Kind := tok_identifier,
               IdentifierInfo := Some (getIdentifierInfo ''__VA_ARGS__'')\<rparr>) s3;
          t = setFlag LeadingSpace t;
          macro = AddTokenToBody t macro;
          (t, s5) = CreateString '')'' 1 (startToken\<lparr>Kind := tok_r_paren\<rparr>) s4;
          macro = AddTokenToBody t macro;
          (t, s6) = CreateString ''_Pragma'' 7
            (startToken\<lparr>Kind := tok_identifier,
               IdentifierInfo := Some (getIdentifierInfo ''_Pragma'')\<rparr>) s5;
          macro = AddTokenToBody t macro;
          (t, s7) = CreateString ''('' 1 (startToken\<lparr>Kind := tok_l_paren\<rparr>) s6;
          macro = AddTokenToBody t macro;
          qualified_name = [CHR 0x22] @ ''cmonster '' @ name @ [CHR 0x22];
          (t, s8) = CreateString qualified_name (length qualified_name)
            (startToken\<lparr>Kind := tok_string_literal\<rparr>) s7;
          macro = AddTokenToBody t macro;
          (t, s9) = CreateString '')'' 1 (startToken\<lparr>Kind := tok_r_paren\<rparr>) s8;
          macro = AddTokenToBody t macro;
          macro = macro\<lparr>EndLocation := Loc t\<rparr>
      in (macro, s9))"

text \<open>
  \<^verbatim>\<open>PreprocessorImpl::add_macro_function\<close>. The result is the exception thrown, or the
  boolean returned; the state is the one the call leaves behind in either case.
\<close>

definition add_macro_function ::
  "string \<Rightarrow> FunctionMacro option \<Rightarrow> ('e, 'm) PreprocessorImpl
     \<Rightarrow> (error + bool) \<times> ('e, 'm) PreprocessorImpl" where
  "add_macro_function name function s =
     (if function = None then (Inr False, s)
      else
        (let (added, s0) = add_pragma name function True s in
         if \<not> added then (Inr False, s0)
         else
           (let macro_identifier = getIdentifierInfo name in
            case getMacroInfo macro_identifier s0 of
              Some macro \<Rightarrow> (Inl MacroAlreadyDefined, s0)
            | None \<Rightarrow>
                (let (macro, s9) = dynamic_macro name s0
                 in (Inr True, setMacroInfo macro_identifier macro s9)))))"

text \<open>
  The constructor of \<^verbatim>\<open>PreprocessorImpl\<close>, from the state in which the compiler instance
  has created its preprocessor: the predefines get the deferral macro, the token saver
  is registered, and the file change callback starts at depth 0.
\<close>

definition PreprocessorImpl_ctor :: "('e, 'm) PreprocessorImpl \<Rightarrow> ('e, 'm) PreprocessorImpl" where
  "PreprocessorImpl_ctor s =
     AddPragmaHandler None TokenSaverPragmaHandler
       (s\<lparr>PP := (PP s)\<lparr>Predefines := Predefines (PP s)
                 @ ''#define _CMONSTER_PRAGMA(...) _Pragma(#__VA_ARGS__)''\<rparr>,
          token_saver := [],
          file_change_callback := \<lparr>depth = 0, location = 0\<rparr>\<rparr>)"

subsection \<open>The two pragma handlers\<close>

text \<open>
  \<^verbatim>\<open>TokenSaverPragmaHandler::HandlePragma\<close>: the saved tokens are cleared, then every token
  up to the end of the directive is saved. The loop ends when the engine returns the end
  of the directive; if it never does, the handler does not return (\<^verbatim>\<open>None\<close>).
\<close>

partial_function (option) TokenSaver_loop ::
  "('e, 'm) ClangAPI \<Rightarrow> ('e, 'm) PreprocessorImpl \<Rightarrow> ('e, 'm) PreprocessorImpl option" where
  "TokenSaver_loop C s =
     (case Lex C s of
        (token, s1) \<Rightarrow>
          if Kind token \<noteq> tok_eod
          then TokenSaver_loop C (s1\<lparr>token_saver := token_saver s1 @ [token]\<rparr>)
          else Some s1)"

declare TokenSaver_loop.simps [code]

definition TokenSaver_HandlePragma ::
  "('e, 'm) ClangAPI \<Rightarrow> ('e, 'm) PreprocessorImpl \<Rightarrow> ('e, 'm) PreprocessorImpl option" where
  "TokenSaver_HandlePragma C s = TokenSaver_loop C (s\<lparr>token_saver := []\<rparr>)"

text \<open>
  \<^verbatim>\<open>DynamicPragmaHandler::HandlePragma\<close>. First the loop that discards the rest of the
  directive.
\<close>

partial_function (option) discard_directive ::
  "('e, 'm) ClangAPI \<Rightarrow> ('e, 'm) PreprocessorImpl \<Rightarrow> ('e, 'm) PreprocessorImpl option" where
  "discard_directive C s =
     (case Lex C s of
        (token, s1) \<Rightarrow> if Kind token \<noteq> tok_eod then discard_directive C s1 else Some s1)"

declare discard_directive.simps [code]

text \<open>The array of result tokens: the first as it is, the others with the flag set.\<close>

definition result_tokens :: "Token list \<Rightarrow> Token list" where
  "result_tokens result = hd result # map (setFlag LeadingSpace) (tl result)"

definition Dynamic_HandlePragma ::
  "('e, 'm) ClangAPI \<Rightarrow> FunctionMacro \<Rightarrow> ('e, 'm) PreprocessorImpl
     \<Rightarrow> ('e, 'm) PreprocessorImpl option" where
  "Dynamic_HandlePragma C m_function s =
     (case discard_directive C s of
        None \<Rightarrow> None
      | Some s1 \<Rightarrow>
          (let result = m_function (token_saver s1)
           in if result \<noteq> [] then Some (EnterTokenStream (result_tokens result) s1)
              else Some s1))"

section \<open>The token stream iterator\<close>

text \<open>
  Modelled from the spec: the constructor of \<^verbatim>\<open>Token\<close> that \<^verbatim>\<open>m_current\<close> starts from is in
  token.hpp, not among the sources; the current token is valid once \<^verbatim>\<open>next\<close> has been
  called, and is \<^verbatim>\<open>None\<close> before. The rest of \<^verbatim>\<open>TokenIteratorImpl\<close> is as in the source.
\<close>

record TokenIteratorImpl =
  m_current :: "Token option"
  m_next :: Token

definition TokenIteratorImpl_ctor ::
  "('e, 'm) ClangAPI \<Rightarrow> ('e, 'm) PreprocessorImpl
     \<Rightarrow> TokenIteratorImpl \<times> ('e, 'm) PreprocessorImpl" where
  "TokenIteratorImpl_ctor C s =
     (case Lex C s of (t, s1) \<Rightarrow> (\<lparr>m_current = None, m_next = t\<rparr>, s1))"

definition has_next :: "TokenIteratorImpl \<Rightarrow> bool" where
  "has_next it = (Kind (m_next it) \<noteq> tok_eof)"

text \<open>\<^verbatim>\<open>next\<close> returns the token, the iterator and the preprocessor after the call.\<close>

definition next_token ::
  "('e, 'm) ClangAPI \<Rightarrow> TokenIteratorImpl \<times> ('e, 'm) PreprocessorImpl
     \<Rightarrow> Token \<times> TokenIteratorImpl \<times> ('e, 'm) PreprocessorImpl" where
  "next_token C = (\<lambda>(it, s).
     (let it1 = it\<lparr>m_current := Some (m_next it)\<rparr>
      in case Lex C s of
           (t, s1) \<Rightarrow> (the (m_current it1), it1\<lparr>m_next := t\<rparr>, s1)))"

definition create_iterator ::
  "('e, 'm) ClangAPI \<Rightarrow> ('e, 'm) PreprocessorImpl
     \<Rightarrow> TokenIteratorImpl \<times> ('e, 'm) PreprocessorImpl" where
  "create_iterator C s = TokenIteratorImpl_ctor C (EnterMainSourceFile C s)"

text \<open>
  A client that calls \<^verbatim>\<open>next\<close> a number of times and keeps the tokens in the order of the
  calls.
\<close>

fun pull ::
  "('e, 'm) ClangAPI \<Rightarrow> nat \<Rightarrow> TokenIteratorImpl \<times> ('e, 'm) PreprocessorImpl
     \<Rightarrow> Token list \<times> TokenIteratorImpl \<times> ('e, 'm) PreprocessorImpl" where
  "pull C 0 its = ([], its)"
| "pull C (Suc n) its =
     (case next_token C its of
        (t, its1) \<Rightarrow> (case pull C n its1 of (ts, its2) \<Rightarrow> (t # ts, its2)))"

text \<open>The engine after a number of calls of \<^verbatim>\<open>Lex\<close>, and the token the next call returns.\<close>

definition Lex_state ::
  "('e, 'm) ClangAPI \<Rightarrow> nat \<Rightarrow> ('e, 'm) PreprocessorImpl \<Rightarrow> ('e, 'm) PreprocessorImpl" where
  "Lex_state C n s = ((\<lambda>s. snd (Lex C s)) ^^ n) s"

definition Lex_token :: "('e, 'm) ClangAPI \<Rightarrow> nat \<Rightarrow> ('e, 'm) PreprocessorImpl \<Rightarrow> Token" where
  "Lex_token C n s = fst (Lex C (Lex_state C n s))"

section \<open>The tokenizer\<close>

text \<open>
  The identifier of a token lexed by a temporary preprocessor is looked up again in the
  old preprocessor (lines 648 to 653).
\<close>

definition reintern :: "bool \<Rightarrow> Token \<Rightarrow> Token" where
  "reintern temporary tok =
     (if temporary \<and> isAnyIdentifier tok then
        (case IdentifierInfo tok of
           Some II \<Rightarrow> tok\<lparr>IdentifierInfo := Some (getIdentifierInfo II)\<rparr>
         | None \<Rightarrow> tok)
      else tok)"

text \<open>
  The loop of \<^verbatim>\<open>tokenize\<close> (lines 639 to 655). It ends when the engine's lookahead is the
  end of file or comes from another file; if that never happens, it does not return.
\<close>

partial_function (option) tokenize_loop ::
  "('e, 'm) ClangAPI \<Rightarrow> FileID \<Rightarrow> bool \<Rightarrow> ('e, 'm) PreprocessorImpl \<Rightarrow> Token list
     \<Rightarrow> (Token list \<times> ('e, 'm) PreprocessorImpl) option" where
  "tokenize_loop C fid temporary s result =
     (if Kind (LookAhead C 0 s) \<noteq> tok_eof
         \<and> getFileID C (SourceMgr s) (Loc (LookAhead C 0 s)) = fid
      then (case LexUnexpandedToken C s of
              (tok, s1) \<Rightarrow> tokenize_loop C fid temporary s1 (result @ [reintern temporary tok]))
      else Some (result, s))"

declare tokenize_loop.simps [code]

text \<open>
  \<^verbatim>\<open>PreprocessorResetter\<close>: on every way out of \<^verbatim>\<open>tokenize\<close> the compiler instance gets
  back the preprocessor it had on entry. When no temporary preprocessor was created,
  that is the current one, with what the call did to it.
\<close>

definition PreprocessorResetter ::
  "bool \<Rightarrow> ('e, 'm) PreprocessorImpl \<Rightarrow> ('e, 'm) PreprocessorImpl \<Rightarrow> ('e, 'm) PreprocessorImpl" where
  "PreprocessorResetter temporary old s = (if temporary then s\<lparr>PP := PP old\<rparr> else s)"

text \<open>
  \<^verbatim>\<open>Preprocessor::tokenize\<close>, in two parts. The first (lines 591 to 622) creates a
  temporary preprocessor when no file has been entered, registers the text as a memory
  buffer and enters it as a file. It gives whether a temporary preprocessor is in use
  (the test \<^verbatim>\<open>&pp != &old_pp\<close>), the file id, the depth recorded before the file was
  entered, and the state.
\<close>

definition enter_unit ::
  "('e, 'm) ClangAPI \<Rightarrow> string \<Rightarrow> ('e, 'm) PreprocessorImpl
     \<Rightarrow> bool \<times> FileID \<times> 32 word \<times> ('e, 'm) PreprocessorImpl" where
  "enter_unit C str s =
     (let temporary = (depth (file_change_callback s) = 0);
          s1 = (if temporary then EnterMainSourceFile C (createPreprocessor C s) else s);
          (fid, s2) = createFileIDForMemBuffer C str s1;
          old_depth = depth (file_change_callback s2);
          s3 = EnterSourceFile C fid s2
      in (temporary, fid, old_depth, s3))"

text \<open>
  The whole function: nothing is done for an empty text; the call bails out with no
  token when the file was not entered; otherwise the loop collects the tokens.
\<close>

definition tokenize ::
  "('e, 'm) ClangAPI \<Rightarrow> string \<Rightarrow> ('e, 'm) PreprocessorImpl
     \<Rightarrow> (Token list \<times> ('e, 'm) PreprocessorImpl) option" where
  "tokenize C str s =
     (if str = [] then Some ([], s)
      else
        (case enter_unit C str s of
           (temporary, fid, old_depth, s3) \<Rightarrow>
             if \<not> temporary \<and> depth (file_change_callback s3) \<le> old_depth
             then Some ([], PreprocessorResetter temporary s s3)
             else (case tokenize_loop C fid temporary s3 [] of
                     None \<Rightarrow> None
                   | Some (result, s4) \<Rightarrow> Some (result, PreprocessorResetter temporary s s4))))"




section \<open>Macro signatures\<close>

text \<open>\<^verbatim>\<open>std::string::find\<close> from a position, and \<^verbatim>\<open>std::string::substr\<close>.\<close>

fun find_in :: "string \<Rightarrow> char \<Rightarrow> nat \<Rightarrow> nat option" where
  "find_in [] c i = None"
| "find_in (x # xs) c i = (if x = c then Some i else find_in xs c (Suc i))"

definition string_find :: "string \<Rightarrow> char \<Rightarrow> nat \<Rightarrow> nat option" where
  "string_find name c pos = find_in (drop pos name) c pos"

definition substr :: "string \<Rightarrow> nat \<Rightarrow> nat \<Rightarrow> string" where
  "substr name pos n = take n (drop pos name)"

text \<open>The count \<^verbatim>\<open>end-start+1\<close> of the source, in the arithmetic of \<^verbatim>\<open>size_t\<close>.\<close>

definition span :: "nat \<Rightarrow> nat \<Rightarrow> nat" where
  "span endp start = nat ((int endp - int start + 1) mod 2 ^ 64)"

text \<open>The two inner loops of \<^verbatim>\<open>define\<close>: over the blanks before a name and after it.\<close>

function skip_blanks :: "string \<Rightarrow> nat \<Rightarrow> nat \<Rightarrow> nat" where
  "skip_blanks name start rparen =
     (if start < rparen \<and> name ! start = CHR '' '' then skip_blanks name (Suc start) rparen
      else start)"
  by pat_completeness auto
termination
  by (relation "measure (\<lambda>(name, start, rparen). rparen - start)") auto

declare skip_blanks.simps [simp del]

function trim_blanks :: "string \<Rightarrow> nat \<Rightarrow> nat \<Rightarrow> nat" where
  "trim_blanks name start endp =
     (if endp > start \<and> name ! endp = CHR '' '' then trim_blanks name start (endp - 1)
      else endp)"
  by pat_completeness auto
termination
  by (relation "measure (\<lambda>(name, start, endp). endp)") auto

declare trim_blanks.simps [simp del]

lemma skip_blanks_ge: "start \<le> skip_blanks name start rparen"
proof (induction name start rparen rule: skip_blanks.induct)
  case (1 name start rparen)
  show ?case
  proof (cases "start < rparen \<and> name ! start = CHR '' ''")
    case True
    with "1" have "Suc start \<le> skip_blanks name (Suc start) rparen" by simp
    with True show ?thesis by (subst skip_blanks.simps) simp
  next
    case False
    then show ?thesis by (subst skip_blanks.simps) auto
  qed
qed

lemma find_in_ge: "find_in xs c i = Some k \<Longrightarrow> i \<le> k"
  by (induction xs arbitrary: i) (auto split: if_splits dest: Suc_leD)

lemma string_find_ge: "string_find name c pos = Some k \<Longrightarrow> pos \<le> k"
  unfolding string_find_def by (rule find_in_ge)

text \<open>
  The outer loop of \<^verbatim>\<open>define\<close> (lines 511 to 541): it returns the parameter names, or the
  exception thrown at a comma.
\<close>

function parse_args :: "string \<Rightarrow> nat \<Rightarrow> nat \<Rightarrow> string list \<Rightarrow> error + string list" where
  "parse_args name start rparen arg_names =
     (if start < rparen then
        (let start1 = skip_blanks name start rparen in
         if name ! start1 = CHR '','' then Inl (UnexpectedComma name start1)
         else
           (case string_find name (CHR '','') (start1 + 1) of
              None \<Rightarrow>
                (let endp = trim_blanks name start1 (rparen - 1)
                 in parse_args name rparen rparen
                      (arg_names @ [substr name start1 (span endp start1)]))
            | Some comma \<Rightarrow>
                (let endp = trim_blanks name start1 (comma - 1)
                 in parse_args name (comma + 1) rparen
                      (arg_names @ [substr name start1 (span endp start1)]))))
      else Inr arg_names)"
  by pat_completeness auto
termination
  apply (relation "measure (\<lambda>(name, start, rparen, arg_names). rparen - start)")
    apply simp
   apply simp
  subgoal for name start rparen arg_names x comma
    using skip_blanks_ge [of start name rparen]
      string_find_ge [of name "CHR '',''" "x + 1" comma]
    by simp
  done

declare parse_args.simps [simp del]

text \<open>
  \<^verbatim>\<open>Preprocessor::define\<close> for a name and a value. The value is tokenized first; the result
  is the exception thrown or the boolean returned, with the state left behind, and
  \<^verbatim>\<open>None\<close> when tokenizing does not return.
\<close>

definition Preprocessor_define ::
  "('e, 'm) ClangAPI \<Rightarrow> string \<Rightarrow> string \<Rightarrow> ('e, 'm) PreprocessorImpl
     \<Rightarrow> ((error + bool) \<times> ('e, 'm) PreprocessorImpl) option" where
  "Preprocessor_define C name val s =
     (case (if val \<noteq> [] then tokenize C val s else Some ([], s)) of
        None \<Rightarrow> None
      | Some (value_tokens, s1) \<Rightarrow>
          Some
            (if name \<noteq> [] \<and> name ! (length name - 1) = CHR '')'' then
               (case string_find name (CHR ''('') 0 of
                  None \<Rightarrow> (Inl NoMatchingParen, s1)
                | Some lparen \<Rightarrow>
                    (case parse_args name (lparen + 1) (length name - 1) [] of
                       Inl e \<Rightarrow> (Inl e, s1)
                     | Inr arg_names \<Rightarrow>
                         (case add_macro_definition C (substr name 0 lparen) value_tokens
                                 arg_names True s1 of
                            (b, s2) \<Rightarrow> (Inr b, s2))))
             else
               (case add_macro_definition C name value_tokens [] False s1 of
                  (b, s2) \<Rightarrow> (Inr b, s2))))"

section \<open>The formatter\<close>




section \<open>The claims' own words, and an engine to run the functions on\<close>

text \<open>
  A comma of a parameter list with no parameter before it: the name ends with the closing
  parenthesis, the comma stands between the first opening parenthesis and the closing
  one, and only blanks separate it from the opening parenthesis or from the comma
  before it.
\<close>

definition bare_comma :: "string \<Rightarrow> nat \<Rightarrow> bool" where
  "bare_comma name j =
     (case string_find name (CHR ''('') 0 of
        None \<Rightarrow> False
      | Some lparen \<Rightarrow>
          j < length name - 1 \<and> name ! j = CHR '','' \<and>
          (\<exists>i < j. lparen \<le> i \<and> (i = lparen \<or> name ! i = CHR '','') \<and>
             (\<forall>k < j. i < k \<longrightarrow> name ! k = CHR '' '')))"

text \<open>
  An engine for concrete runs. Its opaque state is the queue of the tokens still to be
  lexed, with a mark for the preprocessor that has the file change callback: the one the
  constructor set up, and no temporary one. Its source manager is the list of the buffers
  created. A buffer has one identifier token for each of its characters; the location of
  the character at offset \<^verbatim>\<open>i\<close> of the buffer with file id \<^verbatim>\<open>fid\<close> is
  \<^verbatim>\<open>100 * fid + i + 1\<close>, presumed on line \<^verbatim>\<open>fid\<close>, column \<^verbatim>\<open>i + 1\<close>.
\<close>

record queue =
  has_callbacks :: bool
  queued :: "Token list"

definition ident :: "string \<Rightarrow> SourceLocation \<Rightarrow> Token" where
  "ident name L = \<lparr>Loc = L, Length = of_nat (length name), Kind = tok_identifier,
     Flags = {}, IdentifierInfo = Some name, Spelling = name\<rparr>"

definition eod_token :: Token where
  "eod_token = startToken\<lparr>Kind := tok_eod\<rparr>"

definition eof_token :: Token where
  "eof_token = startToken\<lparr>Kind := tok_eof\<rparr>"

definition queue_Lex ::
  "(queue, string list) PreprocessorImpl
     \<Rightarrow> Token \<times> (queue, string list) PreprocessorImpl" where
  "queue_Lex s =
     (case queued (Engine (PP s)) of
        [] \<Rightarrow> (eof_token, s)
      | t # ts \<Rightarrow> (t, s\<lparr>PP := (PP s)\<lparr>Engine := (Engine (PP s))\<lparr>queued := ts\<rparr>\<rparr>\<rparr>))"

definition queue_LookAhead ::
  "nat \<Rightarrow> (queue, string list) PreprocessorImpl \<Rightarrow> Token" where
  "queue_LookAhead n s =
     (case drop n (queued (Engine (PP s))) of [] \<Rightarrow> eof_token | t # ts \<Rightarrow> t)"

fun buffer_tokens :: "FileID \<Rightarrow> nat \<Rightarrow> string \<Rightarrow> Token list" where
  "buffer_tokens fid i [] = []"
| "buffer_tokens fid i (c # cs) = ident [c] (100 * fid + i + 1) # buffer_tokens fid (Suc i) cs"

definition queue_EnterSourceFile ::
  "FileID \<Rightarrow> (queue, string list) PreprocessorImpl
     \<Rightarrow> (queue, string list) PreprocessorImpl" where
  "queue_EnterSourceFile fid s =
     s\<lparr>PP := (PP s)\<lparr>Engine := (Engine (PP s))
              \<lparr>queued := buffer_tokens fid 0 (SourceMgr s ! (fid - 1)) @ queued (Engine (PP s))\<rparr>\<rparr>,
       file_change_callback :=
         (if has_callbacks (Engine (PP s))
          then FileChanged 0 EnterFile (file_change_callback s)
          else file_change_callback s)\<rparr>"

definition queue_createPreprocessor ::
  "(queue, string list) PreprocessorImpl \<Rightarrow> (queue, string list) PreprocessorImpl" where
  "queue_createPreprocessor s =
     s\<lparr>PP := \<lparr>Predefines = [], Macros = Map.empty, PragmaHandlers = [], ScratchBuf = 0,
              TokenStreams = [], Engine = \<lparr>has_callbacks = False, queued = []\<rparr>\<rparr>\<rparr>"

definition queue_createFileID ::
  "string \<Rightarrow> (queue, string list) PreprocessorImpl
     \<Rightarrow> FileID \<times> (queue, string list) PreprocessorImpl" where
  "queue_createFileID str s = (Suc (length (SourceMgr s)), s\<lparr>SourceMgr := SourceMgr s @ [str]\<rparr>)"

definition queue_getPresumedLoc :: "string list \<Rightarrow> SourceLocation \<Rightarrow> (32 word \<times> 32 word) option" where
  "queue_getPresumedLoc m L =
     (if L = 0 then None else Some (of_nat (L div 100), of_nat (L mod 100)))"

text \<open>
  Modelled from the spec: the identity of two macro definitions, for the engine of the
  concrete runs; \<^verbatim>\<open>MacroInfo::isIdenticalTo\<close> belongs to the engine. The same flags, the
  same parameter names, and bodies of the same kinds and spellings.
\<close>

definition queue_isIdenticalTo :: "MacroInfo \<Rightarrow> MacroInfo \<Rightarrow> bool" where
  "queue_isIdenticalTo a b =
     (IsFunctionLike a = IsFunctionLike b \<and> IsC99Varargs a = IsC99Varargs b
        \<and> ArgumentList a = ArgumentList b
        \<and> map (\<lambda>t. (Kind t, Spelling t)) (ReplacementTokens a)
            = map (\<lambda>t. (Kind t, Spelling t)) (ReplacementTokens b))"

definition queue_engine :: "(queue, string list) ClangAPI" where
  "queue_engine =
     \<lparr>Lex = queue_Lex, LexUnexpandedToken = queue_Lex, LookAhead = queue_LookAhead,
      EnterMainSourceFile = (\<lambda>s. s), EnterSourceFile = queue_EnterSourceFile,
      createPreprocessor = queue_createPreprocessor,
      createFileIDForMemBuffer = queue_createFileID,
      getFileID = (\<lambda>m L. L div 100), getPresumedLoc = queue_getPresumedLoc,
      isIdenticalTo = queue_isIdenticalTo\<rparr>"

text \<open>
  A preprocessor just constructed, with the given tokens to lex, and the same after the
  object-like macro \<^verbatim>\<open>N\<close> with the body \<^verbatim>\<open>x\<close> has been defined.
\<close>

definition fresh :: "Token list \<Rightarrow> (queue, string list) PreprocessorImpl" where
  "fresh toks =
     PreprocessorImpl_ctor
       \<lparr>SourceMgr = [],
        PP = \<lparr>Predefines = [], Macros = Map.empty, PragmaHandlers = [], ScratchBuf = 9000,
               TokenStreams = [], Engine = \<lparr>has_callbacks = True, queued = toks\<rparr>\<rparr>,
        token_saver = [],
        file_change_callback = \<lparr>depth = 0, location = 0\<rparr>\<rparr>"

definition with_N :: "(queue, string list) PreprocessorImpl" where
  "with_N = snd (add_macro_definition queue_engine ''N'' [ident ''x'' 101] [] False (fresh []))"

text \<open>A callback: the argument tokens in reverse order.\<close>

definition reversed :: FunctionMacro where
  "reversed toks = rev toks"

text \<open>A callback with an empty result.\<close>

definition nothing :: FunctionMacro where
  "nothing toks = []"

text \<open>
  A preprocessor inside the directive of a dynamic macro: the token saver holds the
  tokens \<^verbatim>\<open>a\<close> and \<^verbatim>\<open>b\<close>; one stray token and the end of the directive are still to be
  lexed, and the token \<^verbatim>\<open>z\<close> after them.
\<close>

definition in_directive :: "(queue, string list) PreprocessorImpl" where
  "in_directive =
     (fresh [ident ''stray'' 301, eod_token, ident ''z'' 401])
       \<lparr>token_saver := [ident ''a'' 101, ident ''b'' 103]\<rparr>"



section \<open>The macro table builder: redefinition and construction\<close>

lemmas state_defs = fresh_def PreprocessorImpl_ctor_def AddPragmaHandler_def getMacroInfo_def
  setMacroInfo_def getIdentifierInfo_def add_macro_definition_def with_N_def

lemma with_N_lookup:
  "getMacroInfo (getIdentifierInfo ''N'') with_N = Some (new_macro [ident ''x'' 101] [] False)"
  by (simp add: state_defs)

lemma fresh_lookup: "getMacroInfo (getIdentifierInfo ''V'') (fresh []) = None"
  by (simp add: state_defs)

lemma fold_AddTokenToBody:
  "fold AddTokenToBody ts m = m\<lparr>ReplacementTokens := ReplacementTokens m @ ts\<rparr>"
  by (induction ts arbitrary: m) (simp_all add: AddTokenToBody_def)

lemma map_getIdentifierInfo: "map getIdentifierInfo xs = xs"
  by (induction xs) (simp_all add: getIdentifierInfo_def)

lemma new_macro_fields:
  "ReplacementTokens (new_macro value_tokens args is_function) = value_tokens"
  "Location (new_macro value_tokens args is_function) = 0"
  "EndLocation (new_macro value_tokens args is_function)
     = (if value_tokens = [] then 0 else Loc (last value_tokens))"
  "IsFunctionLike (new_macro value_tokens args is_function) = is_function"
  "IsC99Varargs (new_macro value_tokens args is_function)
     = (is_function \<and> args \<noteq> [] \<and> last args = ''...'')"
  "ArgumentList (new_macro value_tokens args is_function)
     = (if is_function \<and> args \<noteq> []
        then (if last args = ''...'' then butlast args @ [''__VA_ARGS__''] else args)
        else [])"
  by (simp_all add: new_macro_def Let_def fold_AddTokenToBody AllocateMacroInfo_def
      map_getIdentifierInfo getIdentifierInfo_def butlast_conv_take)

text \<open>
  Claim C1. When \<^verbatim>\<open>add_macro_definition\<close> is called for a name that the macro table already
  binds, it returns the verdict of the engine's identity comparison between the
  descriptor it has just built and the existing one, and in both cases (identical or
  not) the state it leaves is the state it found: the table still binds the name to the
  prior definition, and nothing is overwritten.
\<close>

theorem redefinition_compares_and_keeps_table:
  assumes "getMacroInfo (getIdentifierInfo name) s = Some existing"
  shows "add_macro_definition C name value_tokens args is_function s
         = (isIdenticalTo C (new_macro value_tokens args is_function) existing, s)"
  using assms by (simp add: add_macro_definition_def)

theorem redefinition_compares_and_keeps_table_witness:
  "getMacroInfo (getIdentifierInfo ''N'') with_N = Some (new_macro [ident ''x'' 101] [] False)
   \<and> add_macro_definition queue_engine ''N'' [ident ''x'' 205] [] False with_N = (True, with_N)
   \<and> add_macro_definition queue_engine ''N'' [ident ''y'' 205] [] False with_N = (False, with_N)"
  using redefinition_compares_and_keeps_table [OF with_N_lookup, of queue_engine
      "[ident ''x'' 205]" "[]" False]
    redefinition_compares_and_keeps_table [OF with_N_lookup, of queue_engine
      "[ident ''y'' 205]" "[]" False]
  by (simp add: with_N_lookup queue_engine_def queue_isIdenticalTo_def new_macro_def
      AllocateMacroInfo_def AddTokenToBody_def ident_def)

text \<open>
  Claim C8. When \<^verbatim>\<open>add_macro_definition\<close> is called for a name the macro table does not
  bind, it returns true and binds the name to the descriptor it built, changing nothing
  else. In that descriptor a function-like macro whose last parameter is literally
  \<^verbatim>\<open>...\<close> is C99-variadic, its fixed parameters are the names before the last, and
  \<^verbatim>\<open>__VA_ARGS__\<close> stands in the place of the last; any other non-empty parameter list is
  kept as it is. The body is the given token list. The end location is the location of
  the last body token when the body is not empty; when it is empty, it is the location
  the descriptor was allocated with, which this function leaves at the default location
  (the macro name is a string and has no other location).
\<close>

theorem new_macro_variadic_and_end_location:
  assumes "getMacroInfo (getIdentifierInfo name) s = None"
  shows "add_macro_definition C name value_tokens args is_function s
           = (True, setMacroInfo (getIdentifierInfo name)
                      (new_macro value_tokens args is_function) s)
       \<and> getMacroInfo (getIdentifierInfo name)
           (snd (add_macro_definition C name value_tokens args is_function s))
           = Some (new_macro value_tokens args is_function)
       \<and> IsC99Varargs (new_macro value_tokens args is_function)
           = (is_function \<and> args \<noteq> [] \<and> last args = ''...'')
       \<and> ArgumentList (new_macro value_tokens args is_function)
           = (if is_function \<and> args \<noteq> []
              then (if last args = ''...'' then butlast args @ [''__VA_ARGS__''] else args)
              else [])
       \<and> ReplacementTokens (new_macro value_tokens args is_function) = value_tokens
       \<and> EndLocation (new_macro value_tokens args is_function)
           = (if value_tokens = []
              then Location (new_macro value_tokens args is_function)
              else Loc (last value_tokens))
       \<and> Location (new_macro value_tokens args is_function) = 0"
  using assms
  by (simp add: add_macro_definition_def new_macro_fields getMacroInfo_def setMacroInfo_def)

theorem new_macro_variadic_and_end_location_witness:
  "getMacroInfo (getIdentifierInfo ''V'') (fresh []) = None
   \<and> ArgumentList (new_macro [ident ''a'' 101] [''a'', ''...''] True) = [''a'', ''__VA_ARGS__'']
   \<and> IsC99Varargs (new_macro [ident ''a'' 101] [''a'', ''...''] True)
   \<and> EndLocation (new_macro [ident ''a'' 101] [''a'', ''...''] True) = 101
   \<and> getMacroInfo (getIdentifierInfo ''V'')
        (snd (add_macro_definition queue_engine ''V'' [ident ''a'' 101] [''a'', ''...''] True
               (fresh [])))
        = Some (new_macro [ident ''a'' 101] [''a'', ''...''] True)"
proof -
  note inst = new_macro_variadic_and_end_location [OF fresh_lookup, of queue_engine
      "[ident ''a'' 101]" "[''a'', ''...'']" True]
  have "Loc (ident ''a'' 101) = 101" by (simp add: ident_def)
  from inst have "getMacroInfo (getIdentifierInfo ''V'')
        (snd (add_macro_definition queue_engine ''V'' [ident ''a'' 101] [''a'', ''...''] True
               (fresh [])))
        = Some (new_macro [ident ''a'' 101] [''a'', ''...''] True)"
    by (rule conjunct2 [THEN conjunct1])
  moreover from inst \<open>Loc (ident ''a'' 101) = 101\<close>
  have "ArgumentList (new_macro [ident ''a'' 101] [''a'', ''...''] True) = [''a'', ''__VA_ARGS__'']
   \<and> IsC99Varargs (new_macro [ident ''a'' 101] [''a'', ''...''] True)
   \<and> EndLocation (new_macro [ident ''a'' 101] [''a'', ''...''] True) = 101" by simp
  ultimately show ?thesis using fresh_lookup by blast
qed

section \<open>The dynamic macro bridge: registration\<close>

lemma add_pragma_Some:
  "add_pragma name (Some f) True s
     = (True, AddPragmaHandler (Some ''cmonster'') (DynamicPragmaHandler name f) s)"
  by (simp add: add_pragma_def)

lemma getMacroInfo_AddPragmaHandler:
  "getMacroInfo II (AddPragmaHandler ns h s) = getMacroInfo II s"
  by (simp add: getMacroInfo_def AddPragmaHandler_def)

lemma add_macro_function_result:
  "fst (add_macro_function name function s)
     = (if function = None then Inr False
        else if getMacroInfo (getIdentifierInfo name) s \<noteq> None then Inl MacroAlreadyDefined
        else Inr True)"
  by (cases "function")
     (auto simp: add_macro_function_def add_pragma_Some getMacroInfo_AddPragmaHandler
           split: option.splits prod.splits)

text \<open>
  Claim C2, refuted as stated. The claim has \<^verbatim>\<open>add_macro_function\<close> return false, without
  raising, when the name is already in the macro table. With the macro \<^verbatim>\<open>N\<close> defined and
  a callback that is set, the call ends in the exception \<^verbatim>\<open>Macro already defined\<close>, and
  does not return false.
\<close>

theorem dynamic_conflict_raises_counterexample:
  "getMacroInfo (getIdentifierInfo ''N'') with_N \<noteq> None
   \<and> fst (add_macro_function ''N'' (Some reversed) with_N) = Inl MacroAlreadyDefined
   \<and> fst (add_macro_function ''N'' (Some reversed) with_N) \<noteq> Inr False"
  by (simp add: add_macro_function_result with_N_lookup)

text \<open>
  Claim C2, as amended. \<^verbatim>\<open>add_macro_function\<close> returns false when the callback is unset,
  whatever the name; with a callback that is set, it raises the runtime error
  \<^verbatim>\<open>Macro already defined\<close> when the macro table already binds the name (also when a
  dynamic registration bound it), and returns true otherwise. So it returns true exactly
  when the callback is set and the name is fresh.
\<close>

theorem dynamic_registration_result:
  "fst (add_macro_function name function s)
     = (if function = None then Inr False
        else if getMacroInfo (getIdentifierInfo name) s \<noteq> None then Inl MacroAlreadyDefined
        else Inr True)"
  by (rule add_macro_function_result)

theorem dynamic_registration_result_witness:
  "fst (add_macro_function ''N'' None with_N) = Inr False
   \<and> fst (add_macro_function ''F'' None with_N) = Inr False
   \<and> fst (add_macro_function ''N'' (Some reversed) with_N) = Inl MacroAlreadyDefined
   \<and> fst (add_macro_function ''F'' (Some reversed) with_N) = Inr True"
  using dynamic_registration_result [of "''N''" None with_N]
    dynamic_registration_result [of "''F''" None with_N]
    dynamic_registration_result [of "''N''" "Some reversed" with_N]
    dynamic_registration_result [of "''F''" "Some reversed" with_N]
  by (simp add: state_defs)

lemma dynamic_macro_shape:
  "IsFunctionLike (fst (dynamic_macro name s))"
  "IsC99Varargs (fst (dynamic_macro name s))"
  "ArgumentList (fst (dynamic_macro name s)) = [''__VA_ARGS__'']"
  "map (\<lambda>t. (Kind t, Spelling t)) (ReplacementTokens (fst (dynamic_macro name s)))
     = [(tok_identifier, ''_CMONSTER_PRAGMA''), (tok_l_paren, ''(''),
        (tok_identifier, ''cmonster_pragma''), (tok_identifier, ''__VA_ARGS__''),
        (tok_r_paren, '')''), (tok_identifier, ''_Pragma''), (tok_l_paren, ''(''),
        (tok_string_literal, [CHR 0x22] @ ''cmonster '' @ name @ [CHR 0x22]),
        (tok_r_paren, '')'')]"
  "map IdentifierInfo (ReplacementTokens (fst (dynamic_macro name s)))
     = [Some ''_CMONSTER_PRAGMA'', None, Some ''cmonster_pragma'', Some ''__VA_ARGS__'',
        None, Some ''_Pragma'', None, None, None]"
  "map Flags (ReplacementTokens (fst (dynamic_macro name s)))
     = [{}, {}, {}, {LeadingSpace}, {}, {}, {}, {}, {}]"
  by (simp_all add: dynamic_macro_def CreateString_def startToken_def AllocateMacroInfo_def
      AddTokenToBody_def setFlag_def getIdentifierInfo_def Let_def)

lemma dynamic_macro_state:
  "Macros (PP (snd (dynamic_macro name s))) = Macros (PP s)"
  "PragmaHandlers (PP (snd (dynamic_macro name s))) = PragmaHandlers (PP s)"
  by (simp_all add: dynamic_macro_def CreateString_def Let_def)


lemma with_N_F: "getMacroInfo (getIdentifierInfo ''F'') with_N = None"
  by (simp add: state_defs)

text \<open>
  Claim C3. After a successful \<^verbatim>\<open>add_macro_function\<close> for a name and a callback, the macro
  table binds the name to a function-like, C99-variadic macro whose only parameter is
  \<^verbatim>\<open>__VA_ARGS__\<close> and whose body is, by kind and spelling, the nine tokens
  \<^verbatim>\<open>_CMONSTER_PRAGMA ( cmonster_pragma __VA_ARGS__ ) _Pragma ( "cmonster name" )\<close>; the
  handler of that name is the last one registered, under the namespace \<^verbatim>\<open>cmonster\<close>.
\<close>

theorem dynamic_macro_entry:
  assumes "getMacroInfo (getIdentifierInfo name) s = None"
  shows "\<exists>m. fst (add_macro_function name (Some f) s) = Inr True
     \<and> getMacroInfo (getIdentifierInfo name) (snd (add_macro_function name (Some f) s)) = Some m
     \<and> IsFunctionLike m \<and> IsC99Varargs m \<and> ArgumentList m = [''__VA_ARGS__'']
     \<and> map (\<lambda>t. (Kind t, Spelling t)) (ReplacementTokens m)
         = [(tok_identifier, ''_CMONSTER_PRAGMA''), (tok_l_paren, ''(''),
            (tok_identifier, ''cmonster_pragma''), (tok_identifier, ''__VA_ARGS__''),
            (tok_r_paren, '')''), (tok_identifier, ''_Pragma''), (tok_l_paren, ''(''),
            (tok_string_literal, [CHR 0x22] @ ''cmonster '' @ name @ [CHR 0x22]),
            (tok_r_paren, '')'')]
     \<and> PragmaHandlers (PP (snd (add_macro_function name (Some f) s)))
         = PragmaHandlers (PP s) @ [(Some ''cmonster'', DynamicPragmaHandler name f)]"
proof -
  let ?s0 = "AddPragmaHandler (Some ''cmonster'') (DynamicPragmaHandler name f) s"
  let ?m = "fst (dynamic_macro name ?s0)"
  have run: "add_macro_function name (Some f) s
      = (Inr True, setMacroInfo (getIdentifierInfo name) ?m (snd (dynamic_macro name ?s0)))"
    using assms
    by (simp add: add_macro_function_def add_pragma_Some getMacroInfo_AddPragmaHandler
        split: prod.splits)
  have "getMacroInfo (getIdentifierInfo name) (snd (add_macro_function name (Some f) s)) = Some ?m"
    by (simp add: run getMacroInfo_def setMacroInfo_def)
  moreover have "PragmaHandlers (PP (snd (add_macro_function name (Some f) s)))
         = PragmaHandlers (PP s) @ [(Some ''cmonster'', DynamicPragmaHandler name f)]"
    by (simp add: run setMacroInfo_def dynamic_macro_state) (simp add: AddPragmaHandler_def)
  ultimately show ?thesis
    using dynamic_macro_shape(1-4) [of name ?s0] by (simp add: run)
qed

theorem dynamic_macro_entry_witness:
  "getMacroInfo (getIdentifierInfo ''F'') with_N = None
   \<and> (\<exists>m. fst (add_macro_function ''F'' (Some reversed) with_N) = Inr True
     \<and> getMacroInfo (getIdentifierInfo ''F'')
          (snd (add_macro_function ''F'' (Some reversed) with_N)) = Some m
     \<and> IsFunctionLike m \<and> IsC99Varargs m \<and> ArgumentList m = [''__VA_ARGS__'']
     \<and> map (\<lambda>t. (Kind t, Spelling t)) (ReplacementTokens m)
         = [(tok_identifier, ''_CMONSTER_PRAGMA''), (tok_l_paren, ''(''),
            (tok_identifier, ''cmonster_pragma''), (tok_identifier, ''__VA_ARGS__''),
            (tok_r_paren, '')''), (tok_identifier, ''_Pragma''), (tok_l_paren, ''(''),
            (tok_string_literal, [CHR 0x22] @ ''cmonster F'' @ [CHR 0x22]),
            (tok_r_paren, '')'')])"
  using dynamic_macro_entry [OF with_N_F, of reversed] with_N_F by auto

text \<open>
  Claim C10. When \<^verbatim>\<open>add_macro_function\<close> is called with a callback that is set for a name
  the macro table already binds, the handler for the name has been added under the
  namespace \<^verbatim>\<open>cmonster\<close> before the conflict is found: the call fails, the macro table is
  as before, and the state it leaves differs from the one it found by that handler.
\<close>

theorem failed_registration_keeps_handler:
  assumes "getMacroInfo (getIdentifierInfo name) s = Some m"
  shows "add_macro_function name (Some f) s
           = (Inl MacroAlreadyDefined,
              AddPragmaHandler (Some ''cmonster'') (DynamicPragmaHandler name f) s)
     \<and> PragmaHandlers (PP (snd (add_macro_function name (Some f) s)))
         = PragmaHandlers (PP s) @ [(Some ''cmonster'', DynamicPragmaHandler name f)]
     \<and> snd (add_macro_function name (Some f) s) \<noteq> s
     \<and> Macros (PP (snd (add_macro_function name (Some f) s))) = Macros (PP s)"
proof -
  have run: "add_macro_function name (Some f) s
           = (Inl MacroAlreadyDefined,
              AddPragmaHandler (Some ''cmonster'') (DynamicPragmaHandler name f) s)"
    using assms
    by (simp add: add_macro_function_def add_pragma_Some getMacroInfo_AddPragmaHandler)
  have h: "PragmaHandlers (PP (AddPragmaHandler (Some ''cmonster'') (DynamicPragmaHandler name f) s))
         = PragmaHandlers (PP s) @ [(Some ''cmonster'', DynamicPragmaHandler name f)]"
    by (simp add: AddPragmaHandler_def)
  have "AddPragmaHandler (Some ''cmonster'') (DynamicPragmaHandler name f) s \<noteq> s"
  proof
    assume "AddPragmaHandler (Some ''cmonster'') (DynamicPragmaHandler name f) s = s"
    with h have "PragmaHandlers (PP s)
        = PragmaHandlers (PP s) @ [(Some ''cmonster'', DynamicPragmaHandler name f)]" by simp
    then show False by simp
  qed
  then show ?thesis by (simp add: run h) (simp add: AddPragmaHandler_def)
qed

theorem failed_registration_keeps_handler_witness:
  "getMacroInfo (getIdentifierInfo ''N'') with_N = Some (new_macro [ident ''x'' 101] [] False)
   \<and> fst (add_macro_function ''N'' (Some reversed) with_N) = Inl MacroAlreadyDefined
   \<and> PragmaHandlers (PP (snd (add_macro_function ''N'' (Some reversed) with_N)))
       = [(None, TokenSaverPragmaHandler), (Some ''cmonster'', DynamicPragmaHandler ''N'' reversed)]
   \<and> PragmaHandlers (PP with_N) = [(None, TokenSaverPragmaHandler)]"
proof -
  have "PragmaHandlers (PP with_N) = [(None, TokenSaverPragmaHandler)]"
    by (simp add: state_defs)
  with failed_registration_keeps_handler [OF with_N_lookup, of reversed] with_N_lookup
  show ?thesis by (simp add: AddPragmaHandler_def)
qed

section \<open>The dynamic macro bridge: dispatch\<close>

lemmas queue_defs = queue_engine_def queue_Lex_def queue_LookAhead_def fresh_def
  PreprocessorImpl_ctor_def AddPragmaHandler_def eod_token_def eof_token_def startToken_def

lemma Lex_state_0: "Lex_state C 0 s = s"
  by (simp add: Lex_state_def)

lemma Lex_state_Suc: "Lex_state C (Suc n) s = Lex_state C n (snd (Lex C s))"
  unfolding Lex_state_def by (simp only: funpow_Suc_right o_apply)

lemma Lex_token_0: "Lex_token C 0 s = fst (Lex C s)"
  by (simp add: Lex_token_def Lex_state_0)

lemma Lex_token_Suc: "Lex_token C (Suc n) s = Lex_token C n (snd (Lex C s))"
  by (simp only: Lex_token_def Lex_state_Suc)

lemma discard_directive_returns:
  "\<forall>i<n. Kind (Lex_token C i s) \<noteq> tok_eod \<Longrightarrow> Kind (Lex_token C n s) = tok_eod
     \<Longrightarrow> discard_directive C s = Some (Lex_state C (Suc n) s)"
proof (induction n arbitrary: s)
  case 0
  then have "Kind (fst (Lex C s)) = tok_eod" by (simp add: Lex_token_0)
  then show ?case
    by (subst discard_directive.simps)
       (simp only: Lex_state_Suc Lex_state_0 case_prod_beta, simp)
next
  case (Suc n)
  from Suc.prems(1) have "Kind (Lex_token C 0 s) \<noteq> tok_eod" by blast
  then have first: "Kind (fst (Lex C s)) \<noteq> tok_eod" by (simp add: Lex_token_0)
  have "\<forall>i<n. Kind (Lex_token C i (snd (Lex C s))) \<noteq> tok_eod"
  proof (intro allI impI)
    fix i assume "i < n"
    then have "Suc i < Suc n" by simp
    with Suc.prems(1) have "Kind (Lex_token C (Suc i) s) \<noteq> tok_eod" by blast
    then show "Kind (Lex_token C i (snd (Lex C s))) \<noteq> tok_eod" by (simp add: Lex_token_Suc)
  qed
  moreover have "Kind (Lex_token C n (snd (Lex C s))) = tok_eod"
    using Suc.prems(2) by (simp add: Lex_token_Suc)
  ultimately have "discard_directive C (snd (Lex C s)) = Some (Lex_state C (Suc n) (snd (Lex C s)))"
    by (rule Suc.IH)
  with first show ?case
    by (subst discard_directive.simps) (simp only: Lex_state_Suc [of C "Suc n"] case_prod_beta, simp)
qed


lemma result_tokens_length: "result \<noteq> [] \<Longrightarrow> length (result_tokens result) = length result"
  by (cases result) (simp_all add: result_tokens_def)

lemma result_tokens_first: "result \<noteq> [] \<Longrightarrow> result_tokens result ! 0 = result ! 0"
  by (cases result) (simp_all add: result_tokens_def)

lemma result_tokens_later:
  assumes "0 < i" and "i < length result"
  shows "result_tokens result ! i = (result ! i)\<lparr>Flags := insert LeadingSpace (Flags (result ! i))\<rparr>"
proof (cases result)
  case Nil
  with assms show ?thesis by simp
next
  case (Cons x xs)
  from assms(1) obtain j where i: "i = Suc j" by (cases i) auto
  with assms(2) Cons have "j < length xs" by simp
  then show ?thesis by (simp add: Cons i result_tokens_def setFlag_def)
qed

lemma in_directive_tokens:
  "Kind (Lex_token queue_engine 0 in_directive) \<noteq> tok_eod"
  "Kind (Lex_token queue_engine 1 in_directive) = tok_eod"
  "Lex_state queue_engine (Suc 1) in_directive
     = (fresh [ident ''z'' 401])\<lparr>token_saver := [ident ''a'' 101, ident ''b'' 103]\<rparr>"
  by (simp_all add: Lex_token_def Lex_state_def in_directive_def queue_defs ident_def)

text \<open>
  Claim C4. Let the engine return the end of the directive at its call number \<^verbatim>\<open>n\<close> of
  \<^verbatim>\<open>Lex\<close>, counted from 0, and not before. Then the handler of a dynamic macro returns. It
  has consumed the tokens of its directive up to and including that end, it has called
  the function on the tokens the token saver holds at that moment, and when the result
  is empty it has done nothing more. When the result is not empty it has entered one
  token stream in front of those already entered: as many tokens as the result has, the
  first one as it is, and each later one with the leading space flag added to its flags
  and nothing else changed.
\<close>

theorem dynamic_handler_splices_result:
  assumes "\<forall>i<n. Kind (Lex_token C i s) \<noteq> tok_eod" and "Kind (Lex_token C n s) = tok_eod"
  shows "let s1 = Lex_state C (Suc n) s;
             result = f (token_saver s1);
             spliced = result_tokens result
         in Dynamic_HandlePragma C f s
              = Some (if result = [] then s1 else EnterTokenStream spliced s1)
          \<and> TokenStreams (PP (EnterTokenStream spliced s1)) = spliced # TokenStreams (PP s1)
          \<and> (result \<noteq> [] \<longrightarrow>
                length spliced = length result \<and> spliced ! 0 = result ! 0
                \<and> (\<forall>i. 0 < i \<and> i < length result \<longrightarrow>
                      spliced ! i
                        = (result ! i)\<lparr>Flags := insert LeadingSpace (Flags (result ! i))\<rparr>))"
proof -
  have d: "discard_directive C s = Some (Lex_state C (Suc n) s)"
    using assms by (rule discard_directive_returns)
  have run: "Dynamic_HandlePragma C f s
           = Some (if f (token_saver (Lex_state C (Suc n) s)) = [] then Lex_state C (Suc n) s
                   else EnterTokenStream (result_tokens (f (token_saver (Lex_state C (Suc n) s))))
                          (Lex_state C (Suc n) s))"
    by (simp add: Dynamic_HandlePragma_def d Let_def)
  have front: "TokenStreams (PP (EnterTokenStream toks s1)) = toks # TokenStreams (PP s1)"
    for toks and s1 :: "('a, 'b) PreprocessorImpl"
    by (simp add: EnterTokenStream_def)
  show ?thesis
    unfolding Let_def
    by (intro conjI impI allI run front result_tokens_length result_tokens_first
        result_tokens_later) simp_all
qed

theorem dynamic_handler_splices_result_witness:
  "Kind (Lex_token queue_engine 0 in_directive) \<noteq> tok_eod
   \<and> Kind (Lex_token queue_engine 1 in_directive) = tok_eod
   \<and> Dynamic_HandlePragma queue_engine reversed in_directive
       = Some (EnterTokenStream [ident ''b'' 103, setFlag LeadingSpace (ident ''a'' 101)]
                 ((fresh [ident ''z'' 401])\<lparr>token_saver := [ident ''a'' 101, ident ''b'' 103]\<rparr>))
   \<and> Dynamic_HandlePragma queue_engine nothing in_directive
       = Some ((fresh [ident ''z'' 401])\<lparr>token_saver := [ident ''a'' 101, ident ''b'' 103]\<rparr>)"
proof -
  have h: "\<forall>i<1. Kind (Lex_token queue_engine i in_directive) \<noteq> tok_eod"
    using in_directive_tokens(1) by simp
  note a = dynamic_handler_splices_result [OF h in_directive_tokens(2), of reversed]
  note b = dynamic_handler_splices_result [OF h in_directive_tokens(2), of nothing]
  have "Dynamic_HandlePragma queue_engine reversed in_directive
       = Some (EnterTokenStream [ident ''b'' 103, setFlag LeadingSpace (ident ''a'' 101)]
                 ((fresh [ident ''z'' 401])\<lparr>token_saver := [ident ''a'' 101, ident ''b'' 103]\<rparr>))"
    using a unfolding Let_def in_directive_tokens(3)
    by (simp add: reversed_def result_tokens_def)
  moreover have "Dynamic_HandlePragma queue_engine nothing in_directive
       = Some ((fresh [ident ''z'' 401])\<lparr>token_saver := [ident ''a'' 101, ident ''b'' 103]\<rparr>)"
    using b unfolding Let_def in_directive_tokens(3)
    by (simp add: nothing_def)
  ultimately show ?thesis using in_directive_tokens(1,2) by blast
qed

section \<open>The token stream iterator: lookahead\<close>

lemma next_token_eq:
  "next_token C (it, s)
     = (m_next it, it\<lparr>m_current := Some (m_next it), m_next := fst (Lex C s)\<rparr>, snd (Lex C s))"
  by (simp add: next_token_def case_prod_beta)

lemma pull_from:
  "pull C n (\<lparr>m_current = c, m_next = Lex_token C k s0\<rparr>, Lex_state C (Suc k) s0)
     = (map (\<lambda>i. Lex_token C i s0) [k..<k + n],
        \<lparr>m_current = (if n = 0 then c else Some (Lex_token C (k + n - 1) s0)),
         m_next = Lex_token C (k + n) s0\<rparr>,
        Lex_state C (Suc (k + n)) s0)"
proof (induction n arbitrary: c k)
  case 0
  show ?case by simp
next
  case (Suc n)
  have step: "next_token C (\<lparr>m_current = c, m_next = Lex_token C k s0\<rparr>, Lex_state C (Suc k) s0)
      = (Lex_token C k s0,
         \<lparr>m_current = Some (Lex_token C k s0), m_next = Lex_token C (Suc k) s0\<rparr>,
         Lex_state C (Suc (Suc k)) s0)"
    by (simp add: next_token_eq Lex_token_def Lex_state_def)
  have upt: "[k..<k + Suc n] = k # [Suc k..<Suc k + n]"
    by (simp add: upt_conv_Cons)
  show ?case
    by (simp only: pull.simps step prod.case Suc.IH upt) (simp split: if_splits)
qed

text \<open>
  Claim C5. \<^verbatim>\<open>create_iterator\<close> enters the main source file and lexes one token into the
  lookahead. \<^verbatim>\<open>has_next\<close> holds exactly when the lookahead is not the end of file. \<^verbatim>\<open>next\<close>
  returns the token that was the lookahead, and the new lookahead is the token the
  engine's expanding \<^verbatim>\<open>Lex\<close> returns next. Calling \<^verbatim>\<open>next\<close> any number of times yields the
  tokens of the engine's successive calls of \<^verbatim>\<open>Lex\<close> after the main file was entered, in
  their order and each once, and leaves the engine one call further: the main file is
  entered by \<^verbatim>\<open>create_iterator\<close> only, never by \<^verbatim>\<open>next\<close>.
\<close>

theorem iterator_lookahead_one_pass:
  "create_iterator C s
     = (\<lparr>m_current = None, m_next = Lex_token C 0 (EnterMainSourceFile C s)\<rparr>,
        Lex_state C 1 (EnterMainSourceFile C s))
   \<and> has_next it = (Kind (m_next it) \<noteq> tok_eof)
   \<and> next_token C (it, s')
       = (m_next it, it\<lparr>m_current := Some (m_next it), m_next := fst (Lex C s')\<rparr>,
          snd (Lex C s'))
   \<and> pull C n (create_iterator C s)
       = (map (\<lambda>i. Lex_token C i (EnterMainSourceFile C s)) [0..<n],
          \<lparr>m_current = (if n = 0 then None
                         else Some (Lex_token C (n - 1) (EnterMainSourceFile C s))),
           m_next = Lex_token C n (EnterMainSourceFile C s)\<rparr>,
          Lex_state C (Suc n) (EnterMainSourceFile C s))"
proof -
  have c: "create_iterator C s
     = (\<lparr>m_current = None, m_next = Lex_token C 0 (EnterMainSourceFile C s)\<rparr>,
        Lex_state C 1 (EnterMainSourceFile C s))"
    by (simp add: create_iterator_def TokenIteratorImpl_ctor_def case_prod_beta
        Lex_token_def Lex_state_def)
  have p: "pull C n (create_iterator C s)
       = (map (\<lambda>i. Lex_token C i (EnterMainSourceFile C s)) [0..<n],
          \<lparr>m_current = (if n = 0 then None
                         else Some (Lex_token C (n - 1) (EnterMainSourceFile C s))),
           m_next = Lex_token C n (EnterMainSourceFile C s)\<rparr>,
          Lex_state C (Suc n) (EnterMainSourceFile C s))"
    using pull_from [of C n None 0 "EnterMainSourceFile C s"] by (simp add: c)
  show ?thesis
    by (intro conjI c p next_token_eq) (simp add: has_next_def)
qed

theorem iterator_lookahead_one_pass_witness:
  "fst (pull queue_engine 2 (create_iterator queue_engine (fresh [ident ''p'' 101, ident ''q'' 103])))
     = [ident ''p'' 101, ident ''q'' 103]
   \<and> \<not> has_next (fst (snd (pull queue_engine 2
          (create_iterator queue_engine (fresh [ident ''p'' 101, ident ''q'' 103])))))
   \<and> has_next (fst (snd (pull queue_engine 1
          (create_iterator queue_engine (fresh [ident ''p'' 101, ident ''q'' 103])))))"
proof -
  note a = iterator_lookahead_one_pass [of queue_engine "fresh [ident ''p'' 101, ident ''q'' 103]"
      _ _ 2, THEN conjunct2, THEN conjunct2, THEN conjunct2]
  note b = iterator_lookahead_one_pass [of queue_engine "fresh [ident ''p'' 101, ident ''q'' 103]"
      _ _ 1, THEN conjunct2, THEN conjunct2, THEN conjunct2]
  have e: "EnterMainSourceFile queue_engine = (\<lambda>s. s)" by (simp add: queue_engine_def)
  have t: "Lex_token queue_engine 0 (fresh [ident ''p'' 101, ident ''q'' 103]) = ident ''p'' 101"
    "Lex_token queue_engine (Suc 0) (fresh [ident ''p'' 101, ident ''q'' 103]) = ident ''q'' 103"
    "Lex_token queue_engine 2 (fresh [ident ''p'' 101, ident ''q'' 103]) = eof_token"
    by (simp_all add: Lex_token_def Lex_state_def queue_defs numeral_2_eq_2)
  have u: "[0..<2] = [0, 1]" by (simp add: upt_conv_Cons numeral_2_eq_2)
  show ?thesis
    unfolding a b
    by (simp add: e t u has_next_def) (simp add: ident_def eof_token_def startToken_def)
qed

section \<open>The formatter: layout\<close>








section \<open>The tokenizer: unexpanded lexing of one unit\<close>











section \<open>Macro signatures: syntax errors\<close>

lemma skip_blanks_stop:
  "start \<le> j \<Longrightarrow> j < rparen \<Longrightarrow> name ! j \<noteq> CHR '' ''
     \<Longrightarrow> \<forall>k. start \<le> k \<and> k < j \<longrightarrow> name ! k = CHR '' ''
     \<Longrightarrow> skip_blanks name start rparen = j"
proof (induction name start rparen rule: skip_blanks.induct)
  case (1 name start rparen)
  show ?case
  proof (cases "start = j")
    case True
    with "1.prems" show ?thesis by (subst skip_blanks.simps) simp
  next
    case False
    with "1.prems" have lt: "start < j" by simp
    with "1.prems" have b: "name ! start = CHR '' ''" by simp
    from lt "1.prems" have c: "start < rparen \<and> name ! start = CHR '' ''" using b by simp
    have "skip_blanks name (Suc start) rparen = j"
    proof (rule "1.IH")
      show "start < rparen \<and> name ! start = CHR '' ''" by (rule c)
      show "Suc start \<le> j" using lt by simp
      show "j < rparen" by (rule "1.prems"(2))
      show "name ! j \<noteq> CHR '' ''" by (rule "1.prems"(3))
      show "\<forall>k. Suc start \<le> k \<and> k < j \<longrightarrow> name ! k = CHR '' ''" using "1.prems"(4) by simp
    qed
    with c show ?thesis by (subst skip_blanks.simps) simp
  qed
qed

lemma skip_blanks_le:
  "start \<le> i \<Longrightarrow> i < rparen \<Longrightarrow> name ! i \<noteq> CHR '' ''
     \<Longrightarrow> skip_blanks name start rparen \<le> i"
proof (induction name start rparen rule: skip_blanks.induct)
  case (1 name start rparen)
  show ?case
  proof (cases "start < rparen \<and> name ! start = CHR '' ''")
    case True
    with "1.prems" have "start \<noteq> i" by auto
    with "1.prems" have "Suc start \<le> i" by simp
    with "1.IH" True "1.prems" have "skip_blanks name (Suc start) rparen \<le> i" by simp
    with True show ?thesis by (subst skip_blanks.simps) simp
  next
    case False
    with "1.prems" show ?thesis by (subst skip_blanks.simps) auto
  qed
qed

lemma find_in_exists:
  "i < length xs \<Longrightarrow> xs ! i = c
     \<Longrightarrow> \<exists>k. find_in xs c b = Some k \<and> b \<le> k \<and> k \<le> b + i \<and> xs ! (k - b) = c"
proof (induction xs arbitrary: i b)
  case Nil
  then show ?case by simp
next
  case (Cons x xs)
  show ?case
  proof (cases "x = c")
    case True
    then show ?thesis by simp
  next
    case False
    with Cons.prems obtain i' where i: "i = Suc i'" by (cases i) auto
    with Cons.prems have "i' < length xs" "xs ! i' = c" by simp_all
    from Cons.IH [OF this, of "Suc b"] obtain k where
      k: "find_in xs c (Suc b) = Some k" "Suc b \<le> k" "k \<le> Suc b + i'" "xs ! (k - Suc b) = c"
      by blast
    from k(2) have "k - b = Suc (k - Suc b)" by simp
    with k False i show ?thesis by simp
  qed
qed

lemma string_find_exists:
  assumes "pos \<le> i" and "i < length name" and "name ! i = c"
  shows "\<exists>k. string_find name c pos = Some k \<and> pos \<le> k \<and> k \<le> i \<and> name ! k = c"
proof -
  from assms have "i - pos < length (drop pos name)" "drop pos name ! (i - pos) = c"
    by simp_all
  from find_in_exists [OF this, of pos] obtain k where
    k: "find_in (drop pos name) c pos = Some k" "pos \<le> k" "k \<le> pos + (i - pos)"
       "drop pos name ! (k - pos) = c"
    by blast
  from k(2,3) assms have "k \<le> i" "pos + (k - pos) = k" "k < length name" by simp_all
  with k assms show ?thesis by (simp add: string_find_def)
qed

lemma find_in_None: "(find_in xs c b = None) = (c \<notin> set xs)"
  by (induction xs arbitrary: b) auto

lemma string_find_None: "(string_find name c 0 = None) = (c \<notin> set name)"
  by (simp add: string_find_def find_in_None)

lemma parse_args_bare_comma:
  "j < rparen \<Longrightarrow> rparen < length name \<Longrightarrow> name ! j = CHR '',''
     \<Longrightarrow> i < j \<Longrightarrow> start \<le> Suc i \<Longrightarrow> Suc i = start \<or> name ! i = CHR '',''
     \<Longrightarrow> \<forall>k<j. i < k \<longrightarrow> name ! k = CHR '' ''
     \<Longrightarrow> \<exists>col\<le>j. name ! col = CHR '','' \<and>
           parse_args name start rparen arg_names = Inl (UnexpectedComma name col)"
proof (induction name start rparen arg_names rule: parse_args.induct)
  case (1 name start rparen arg_names)
  let ?start1 = "skip_blanks name start rparen"
  from "1.prems" have lt: "start < rparen" by simp
  show ?case
  proof (cases "Suc i = start")
    case True
    have "?start1 = j"
    proof (rule skip_blanks_stop)
      show "start \<le> j" using True "1.prems"(4) by simp
      show "j < rparen" by (rule "1.prems"(1))
      show "name ! j \<noteq> CHR '' ''" using "1.prems"(3) by simp
      show "\<forall>k. start \<le> k \<and> k < j \<longrightarrow> name ! k = CHR '' ''"
        using "1.prems"(7) True by auto
    qed
    with lt "1.prems"(3) have "parse_args name start rparen arg_names = Inl (UnexpectedComma name j)"
      by (subst parse_args.simps) (simp add: Let_def)
    with "1.prems"(3) show ?thesis by blast
  next
    case False
    with "1.prems"(5,6) have si: "start \<le> i" and ci: "name ! i = CHR '',''" by auto
    from "1.prems"(1,4) have ir: "i < rparen" by simp
    have le: "?start1 \<le> i"
      by (rule skip_blanks_le [OF si ir]) (simp add: ci)
    show ?thesis
    proof (cases "name ! ?start1 = CHR '',''")
      case True
      with lt have "parse_args name start rparen arg_names = Inl (UnexpectedComma name ?start1)"
        by (subst parse_args.simps) (simp add: Let_def)
      moreover from le "1.prems"(4) have "?start1 \<le> j" by simp
      ultimately show ?thesis using True by blast
    next
      case nc: False
      with ci le have "?start1 \<noteq> i" by auto
      with le have "?start1 + 1 \<le> i" by simp
      moreover from ir "1.prems"(2) have "i < length name" by simp
      ultimately obtain comma where
        comma: "string_find name (CHR '','') (?start1 + 1) = Some comma" "comma \<le> i"
        using string_find_exists [of "?start1 + 1" i name "CHR '',''"] ci by blast
      have "\<exists>col\<le>j. name ! col = CHR '','' \<and>
           parse_args name (comma + 1) rparen
             (arg_names @ [substr name ?start1 (span (trim_blanks name ?start1 (comma - 1)) ?start1)])
           = Inl (UnexpectedComma name col)"
      proof (rule "1.IH"(2) [OF lt refl nc comma(1) refl])
        show "j < rparen" by (rule "1.prems"(1))
        show "rparen < length name" by (rule "1.prems"(2))
        show "name ! j = CHR '',''" by (rule "1.prems"(3))
        show "i < j" by (rule "1.prems"(4))
        show "comma + 1 \<le> Suc i" using comma(2) by simp
        show "Suc i = comma + 1 \<or> name ! i = CHR '',''" using ci by simp
        show "\<forall>k<j. i < k \<longrightarrow> name ! k = CHR '' ''" by (rule "1.prems"(7))
      qed
      moreover have "parse_args name start rparen arg_names
          = parse_args name (comma + 1) rparen
             (arg_names @ [substr name ?start1 (span (trim_blanks name ?start1 (comma - 1)) ?start1)])"
        using lt nc comma(1) by (subst parse_args.simps) (simp add: Let_def)
      ultimately show ?thesis by simp
    qed
  qed
qed


lemma tokenize_temporary_keeps_PP:
  assumes "depth (file_change_callback s) = 0" and "tokenize C str s = Some (toks, s1)"
  shows "PP s1 = PP s"
proof (cases "str = []")
  case True
  with assms(2) show ?thesis by (simp add: tokenize_def)
next
  case False
  obtain fid old_depth s3 where e: "enter_unit C str s = (True, fid, old_depth, s3)"
    using assms(1) by (simp add: enter_unit_def Let_def case_prod_beta)
  from assms(2) False e obtain result s4 where
    "tokenize_loop C fid True s3 [] = Some (result, s4)"
    and "s1 = PreprocessorResetter True s s4"
    by (auto simp: tokenize_def split: option.splits)
  then show ?thesis by (simp add: PreprocessorResetter_def)
qed

lemma bare_comma_example: "bare_comma ''F(a,,b)'' 4"
proof -
  have "string_find ''F(a,,b)'' (CHR ''('') 0 = Some 1" by (simp add: string_find_def)
  moreover have "\<exists>i<4. (1::nat) \<le> i \<and> (i = 1 \<or> ''F(a,,b)'' ! i = CHR '','') \<and>
             (\<forall>k<4. i < k \<longrightarrow> ''F(a,,b)'' ! k = CHR '' '')"
    by (rule exI [of _ 3]) simp
  ultimately show ?thesis by (simp add: bare_comma_def)
qed

lemma bare_comma_trailing_blank: "bare_comma ''F(a,,b) '' 4"
proof -
  have "string_find ''F(a,,b) '' (CHR ''('') 0 = Some 1" by (simp add: string_find_def)
  moreover have "\<exists>i<4. (1::nat) \<le> i \<and> (i = 1 \<or> ''F(a,,b) '' ! i = CHR '','') \<and>
             (\<forall>k<4. i < k \<longrightarrow> ''F(a,,b) '' ! k = CHR '' '')"
    by (rule exI [of _ 3]) simp
  ultimately show ?thesis by (simp add: bare_comma_def)
qed

lemma parse_unmatched: "parse_args ''F(a))'' 2 4 [] = Inr [''a)'']"
proof -
  have s: "skip_blanks ''F(a))'' 2 4 = 2"
    by (subst skip_blanks.simps) simp
  have f: "string_find ''F(a))'' (CHR '','') 3 = None"
    by (simp add: string_find_def numeral_3_eq_3)
  have t: "trim_blanks ''F(a))'' 2 3 = 3"
    by (subst trim_blanks.simps) simp
  have e: "parse_args ''F(a))'' 4 4 [''a)''] = Inr [''a)'']"
    by (subst parse_args.simps) simp
  have sp: "span 3 2 = 2" by (simp add: span_def)
  have sub: "substr ''F(a))'' 2 2 = ''a)''" by (simp add: substr_def numeral_2_eq_2)
  show ?thesis
    by (subst parse_args.simps) (simp add: s f t e sp sub Let_def)
qed

text \<open>
  Claim C9, refuted as stated. The claim has every signature with an empty parameter
  between commas, and every name whose closing parenthesis has no matching opening one,
  fail with a syntax error and define no macro. The signature \<^verbatim>\<open>F(a,,b)\<close> followed by one
  blank has a comma right after a comma in its parameter list, yet \<^verbatim>\<open>define\<close> returns
  true and binds the whole string as the name of an object-like macro. The name
  \<^verbatim>\<open>F(a))\<close> ends with a closing parenthesis that closes nothing, yet \<^verbatim>\<open>define\<close> returns
  true and binds \<^verbatim>\<open>F\<close> to a macro with the parameter \<^verbatim>\<open>a)\<close>.
\<close>

theorem unchecked_signatures_counterexample:
  "bare_comma ''F(a,,b) '' 4
   \<and> Preprocessor_define queue_engine ''F(a,,b) '' [] (fresh [])
       = Some (Inr True, setMacroInfo ''F(a,,b) '' (new_macro [] [] False) (fresh []))
   \<and> getMacroInfo ''F(a,,b) ''
        (setMacroInfo ''F(a,,b) '' (new_macro [] [] False) (fresh []))
       = Some (new_macro [] [] False)
   \<and> Preprocessor_define queue_engine ''F(a))'' [] (fresh [])
       = Some (Inr True, setMacroInfo ''F'' (new_macro [] [''a)''] True) (fresh []))"
proof -
  have fr: "getMacroInfo nm (fresh []) = None" for nm
    by (simp add: state_defs)
  have a: "Preprocessor_define queue_engine ''F(a,,b) '' [] (fresh [])
       = Some (Inr True, setMacroInfo ''F(a,,b) '' (new_macro [] [] False) (fresh []))"
    by (simp add: Preprocessor_define_def add_macro_definition_def fr getIdentifierInfo_def)
  have lp: "string_find ''F(a))'' (CHR ''('') 0 = Some 1" by (simp add: string_find_def)
  have nm: "substr ''F(a))'' 0 (Suc 0) = ''F''" by (simp add: substr_def)
  have pu: "parse_args ''F(a))'' (Suc (Suc 0)) (Suc (Suc (Suc (Suc 0)))) [] = Inr [''a)'']"
    using parse_unmatched by (simp add: eval_nat_numeral)
  have b: "Preprocessor_define queue_engine ''F(a))'' [] (fresh [])
       = Some (Inr True, setMacroInfo ''F'' (new_macro [] [''a)''] True) (fresh []))"
    by (simp add: Preprocessor_define_def lp pu nm add_macro_definition_def fr
        getIdentifierInfo_def)
  have c: "getMacroInfo ''F(a,,b) ''
        (setMacroInfo ''F(a,,b) '' (new_macro [] [] False) (fresh []))
       = Some (new_macro [] [] False)"
    by (simp add: getMacroInfo_def setMacroInfo_def)
  from a b c bare_comma_trailing_blank show ?thesis by blast
qed

text \<open>
  Claim C9, as amended. \<^verbatim>\<open>define\<close> reads a parameter list only from a name whose last
  character is the closing parenthesis, and takes the first opening parenthesis of the
  name as the start of the list. For such a name, once the value has been tokenized: when
  the name has no opening parenthesis at all, \<^verbatim>\<open>define\<close> throws (no matching
  parenthesis); when the list has a comma that only space characters separate from that
  opening parenthesis or from the comma before it, \<^verbatim>\<open>define\<close> throws at a comma, the one
  the parser meets first. In both cases the error is the result of the call, the macro
  table builder is not reached, and the state left is the one tokenizing the value left:
  the state found when the value is empty, and a state with the same preprocessor (so the
  same macro table) when no file had been entered.
\<close>

theorem malformed_signature_raises:
  assumes "name \<noteq> []" and "last name = CHR '')''"
    and "(if val \<noteq> [] then tokenize C val s else Some ([], s)) = Some (value_tokens, s1)"
  shows "(CHR ''('' \<notin> set name \<longrightarrow>
            Preprocessor_define C name val s = Some (Inl NoMatchingParen, s1))
       \<and> (bare_comma name j \<longrightarrow>
            (\<exists>col\<le>j. name ! col = CHR '','' \<and>
               Preprocessor_define C name val s = Some (Inl (UnexpectedComma name col), s1)))
       \<and> (val = [] \<or> depth (file_change_callback s) = 0 \<longrightarrow> PP s1 = PP s)"
proof (intro conjI impI)
  from assms(1,2) have closing: "name \<noteq> [] \<and> name ! (length name - 1) = CHR '')''"
    by (simp add: last_conv_nth)
  {
    assume "CHR ''('' \<notin> set name"
    then have "string_find name (CHR ''('') 0 = None" by (simp add: string_find_None)
    with closing assms(3)
    show "Preprocessor_define C name val s = Some (Inl NoMatchingParen, s1)"
      by (simp add: Preprocessor_define_def)
  }
  {
    assume "bare_comma name j"
    then obtain lparen i where
      lparen: "string_find name (CHR ''('') 0 = Some lparen"
      and j: "j < length name - 1" "name ! j = CHR '',''"
      and i: "i < j" "lparen \<le> i" "i = lparen \<or> name ! i = CHR '',''"
             "\<forall>k<j. i < k \<longrightarrow> name ! k = CHR '' ''"
      by (auto simp: bare_comma_def split: option.splits)
    have "\<exists>col\<le>j. name ! col = CHR '','' \<and>
           parse_args name (lparen + 1) (length name - 1) [] = Inl (UnexpectedComma name col)"
    proof (rule parse_args_bare_comma [OF j(1) _ j(2) i(1) _ _ i(4)])
      show "length name - 1 < length name" using assms(1) by simp
      show "lparen + 1 \<le> Suc i" using i(2) by simp
      show "Suc i = lparen + 1 \<or> name ! i = CHR '',''" using i(3) by auto
    qed
    then obtain col where col: "col \<le> j" "name ! col = CHR '',''"
      "parse_args name (lparen + 1) (length name - 1) [] = Inl (UnexpectedComma name col)"
      by blast
    from closing assms(3) lparen col(3)
    have "Preprocessor_define C name val s = Some (Inl (UnexpectedComma name col), s1)"
      by (simp add: Preprocessor_define_def)
    with col(1,2)
    show "\<exists>col\<le>j. name ! col = CHR '','' \<and>
               Preprocessor_define C name val s = Some (Inl (UnexpectedComma name col), s1)"
      by blast
  }
  {
    assume "val = [] \<or> depth (file_change_callback s) = 0"
    then show "PP s1 = PP s"
    proof
      assume "val = []"
      with assms(3) show ?thesis by simp
    next
      assume d: "depth (file_change_callback s) = 0"
      show ?thesis
      proof (cases "val = []")
        case True
        with assms(3) show ?thesis by simp
      next
        case False
        with assms(3) have "tokenize C val s = Some (value_tokens, s1)" by simp
        with d show ?thesis by (rule tokenize_temporary_keeps_PP)
      qed
    qed
  }
qed

theorem malformed_signature_raises_witness:
  "Preprocessor_define queue_engine ''F)'' [] (fresh []) = Some (Inl NoMatchingParen, fresh [])
   \<and> bare_comma ''F(a,,b)'' 4
   \<and> (\<exists>col. col \<le> 4 \<and> ''F(a,,b)'' ! col = CHR '','' \<and>
        Preprocessor_define queue_engine ''F(a,,b)'' [] (fresh [])
          = Some (Inl (UnexpectedComma ''F(a,,b)'' col), fresh []))"
proof -
  have t: "(if ([]::string) \<noteq> [] then tokenize queue_engine [] (fresh []) else Some ([], fresh []))
      = Some ([], fresh [])" by simp
  have "Preprocessor_define queue_engine ''F)'' [] (fresh []) = Some (Inl NoMatchingParen, fresh [])"
    using malformed_signature_raises [of "''F)''" "[]" queue_engine "fresh []" "[]" "fresh []" 0, OF _ _ t]
    by simp
  moreover have "\<exists>col. col \<le> 4 \<and> ''F(a,,b)'' ! col = CHR '','' \<and>
        Preprocessor_define queue_engine ''F(a,,b)'' [] (fresh [])
          = Some (Inl (UnexpectedComma ''F(a,,b)'' col), fresh [])"
    using malformed_signature_raises [of "''F(a,,b)''" "[]" queue_engine "fresh []" "[]" "fresh []" 4, OF _ _ t]
      bare_comma_example
    by simp
  ultimately show ?thesis using bare_comma_example by blast
qed

end
